theory Spec2Isabelle
  imports Main
begin

section \<open>Python values, strings and exceptions\<close>

text \<open>
  Attribute values and metadata entries are typed \<open>Any\<close> in the source. The model keeps
  the kinds of value whose truthiness and \<open>str()\<close> differ: \<open>None\<close>, strings, integers
  and booleans. Strings are lists of 8-bit characters, read as code points below 256.
\<close>

datatype pyval = PNone | PStr string | PInt int | PBool bool

fun truthy :: "pyval \<Rightarrow> bool" where
  "truthy PNone = False"
| "truthy (PStr s) = (s \<noteq> [])"
| "truthy (PInt i) = (i \<noteq> 0)"
| "truthy (PBool b) = b"

fun str_nat :: "nat \<Rightarrow> string" where
  "str_nat n =
     (if n < 10 then [''0123456789'' ! n]
      else str_nat (n div 10) @ [''0123456789'' ! (n mod 10)])"

definition str_int :: "int \<Rightarrow> string" where
  "str_int i = (if i < 0 then CHR ''-'' # str_nat (nat (- i)) else str_nat (nat i))"

fun py_str :: "pyval \<Rightarrow> string" where
  "py_str PNone = ''None''"
| "py_str (PStr s) = s"
| "py_str (PInt i) = str_int i"
| "py_str (PBool b) = (if b then ''True'' else ''False'')"

text \<open>
  \<open>str(getattr(obj, name, "") or "")\<close> and \<open>str(d.get(name, "") or "")\<close>: the argument
  is \<open>None\<close> when the attribute or key is absent.
\<close>

definition str_or_empty :: "pyval option \<Rightarrow> string" where
  "str_or_empty v =
     (case v of None \<Rightarrow> [] | Some x \<Rightarrow> if truthy x then py_str x else [])"

text \<open>\<open>str.isspace\<close> on the code points below 256, and \<open>str.strip()\<close>.\<close>

definition py_isspace :: "char \<Rightarrow> bool" where
  "py_isspace c =
     (let n = (of_char c :: nat)
      in (9 \<le> n \<and> n \<le> 13) \<or> (28 \<le> n \<and> n \<le> 32) \<or> n = 133 \<or> n = 160)"

definition strip :: "string \<Rightarrow> string" where
  "strip s = rev (dropWhile py_isspace (rev (dropWhile py_isspace s)))"

text \<open>
  An exception is \<open>asyncio.CancelledError\<close>, an instance of \<open>Exception\<close> (with its
  \<open>str()\<close>), or another \<open>BaseException\<close> outside \<open>Exception\<close>. A handler
  \<open>except Exception\<close> catches the second kind only.
\<close>

datatype exc = CancelledError | Exc string | OtherBase string

fun is_Exception :: "exc \<Rightarrow> bool" where
  "is_Exception (Exc m) = True"
| "is_Exception CancelledError = False"
| "is_Exception (OtherBase m) = False"

fun exc_str :: "exc \<Rightarrow> string" where
  "exc_str (Exc m) = m"
| "exc_str CancelledError = []"
| "exc_str (OtherBase m) = m"

text \<open>What an awaited call into a collaborator does: it returns or it raises.\<close>

datatype call = Returns | Raises exc

datatype level = Debug | Info | Warning | Error

section \<open>The QQ channel (\<open>nanobot/channels/qq.py\<close>)\<close>

subsection \<open>Data\<close>

text \<open>\<open>collections.deque(maxlen=n)\<close>: the items, oldest first, and the bound.\<close>

record deque =
  dq_items :: "string list"
  dq_maxlen :: nat

definition deque_new :: "nat \<Rightarrow> deque" where
  "deque_new n = \<lparr>dq_items = [], dq_maxlen = n\<rparr>"

text \<open>\<open>deque.append\<close>: a full deque discards its leftmost item; with bound 0 nothing is kept.\<close>

definition deque_append :: "deque \<Rightarrow> string \<Rightarrow> deque" where
  "deque_append d x =
     (if dq_maxlen d = 0 then d
      else if dq_maxlen d \<le> length (dq_items d)
        then d\<lparr>dq_items := drop (Suc (length (dq_items d)) - dq_maxlen d) (dq_items d @ [x])\<rparr>
      else d\<lparr>dq_items := dq_items d @ [x]\<rparr>)"

text \<open>
  The client object of the SDK. The channel uses only what its optional teardown
  attributes do when called: \<open>None\<close> is an attribute that is absent or not callable.
\<close>

record client =
  close_fn :: "call option"
  http_close :: "call option"
  stop_fn :: "call option"

record qq_channel =
  running :: bool
  client :: "client option"
  processed_ids :: deque
  msg_seq :: "(string \<times> string) \<rightharpoonup> int"

text \<open>\<open>OutboundMessage\<close> of the bus (declared outside the files at hand).\<close>

record outbound_message =
  chat_id :: string
  content :: string
  reply_to :: "string option"
  metadata :: "string \<rightharpoonup> pyval"

text \<open>The attributes \<open>_on_message\<close> reads from the SDK's message object.\<close>

record author =
  user_openid :: "pyval option"

record c2c_message =
  id_attr :: "pyval option"
  author_attr :: "author option"
  content_attr :: "pyval option"

text \<open>The keyword arguments of \<open>post_c2c_message\<close> and of \<open>_handle_message\<close>.\<close>

record post_args =
  p_openid :: string
  p_msg_type :: int
  p_content :: string
  p_msg_id :: string
  p_msg_seq :: int

record inbound =
  i_sender_id :: string
  i_chat_id :: string
  i_content :: string
  i_message_id :: string
  i_user_openid :: string

text \<open>What a method does to the outside, in order: log lines and calls to collaborators.\<close>

datatype effect =
    Log level string
  | Post post_args
  | Handle inbound
  | Connect
  | Sleep nat
  | Teardown string

type_synonym 'a outcome = "(exc + 'a) \<times> qq_channel \<times> effect list"

subsection \<open>\<open>__init__\<close>\<close>

definition init :: qq_channel where
  "init = \<lparr>running = False, client = None, processed_ids = deque_new 1000,
           msg_seq = Map.empty\<rparr>"

subsection \<open>\<open>send\<close>\<close>

definition reply_msg_id :: "outbound_message \<Rightarrow> string" where
  "reply_msg_id m =
     (case reply_to m of
        Some r \<Rightarrow> if r \<noteq> [] then r else str_or_empty (metadata m ''message_id'')
      | None \<Rightarrow> str_or_empty (metadata m ''message_id''))"

definition seq_key :: "outbound_message \<Rightarrow> string \<times> string" where
  "seq_key m =
     (chat_id m, if reply_msg_id m \<noteq> [] then reply_msg_id m else ''__proactive__'')"

text \<open>\<open>self._msg_seq[key]\<close> on a \<open>defaultdict(int)\<close>: a missing key reads 0.\<close>

definition seq_get :: "((string \<times> string) \<rightharpoonup> int) \<Rightarrow> string \<times> string \<Rightarrow> int" where
  "seq_get t k = (case t k of None \<Rightarrow> 0 | Some n \<Rightarrow> n)"

text \<open>
  \<open>send\<close>, with what the awaited \<open>post_c2c_message\<close> does as the argument \<open>post\<close>.
  The counter is written before the call; \<open>except Exception\<close> logs and returns.
\<close>

definition send :: "qq_channel \<Rightarrow> outbound_message \<Rightarrow> call \<Rightarrow> unit outcome" where
  "send s m post =
     (case client s of
        None \<Rightarrow> (Inr (), s, [Log Warning ''QQ client not initialized''])
      | Some c \<Rightarrow>
          let k = seq_key m;
              n = seq_get (msg_seq s) k + 1;
              s' = s\<lparr>msg_seq := (msg_seq s)(k \<mapsto> n)\<rparr>;
              args = \<lparr>p_openid = chat_id m, p_msg_type = 0, p_content = content m,
                      p_msg_id = reply_msg_id m, p_msg_seq = n\<rparr>
          in (case post of
                Returns \<Rightarrow> (Inr (), s', [Post args])
              | Raises e \<Rightarrow>
                  if is_Exception e
                  then (Inr (), s', [Post args, Log Error (''Error sending QQ message: '' @ exc_str e)])
                  else (Inl e, s', [Post args])))"

text \<open>The sequence numbers handed to the transport for one conversation key, in order.\<close>

definition post_key :: "post_args \<Rightarrow> string \<times> string" where
  "post_key a = (p_openid a, if p_msg_id a \<noteq> [] then p_msg_id a else ''__proactive__'')"

fun issued :: "string \<times> string \<Rightarrow> effect list \<Rightarrow> int list" where
  "issued k [] = []"
| "issued k (Post a # es) = (if post_key a = k then p_msg_seq a # issued k es else issued k es)"
| "issued k (e # es) = issued k es"

subsection \<open>\<open>_on_message\<close>\<close>

definition message_id :: "c2c_message \<Rightarrow> string" where
  "message_id d = str_or_empty (id_attr d)"

text \<open>The test \<open>message_id in self._processed_ids\<close>, made for a non-empty id only.\<close>

definition is_duplicate :: "qq_channel \<Rightarrow> c2c_message \<Rightarrow> bool" where
  "is_duplicate s d =
     (message_id d \<noteq> [] \<and> message_id d \<in> set (dq_items (processed_ids s)))"

definition record_id :: "qq_channel \<Rightarrow> c2c_message \<Rightarrow> qq_channel" where
  "record_id s d =
     (if message_id d \<noteq> []
      then s\<lparr>processed_ids := deque_append (processed_ids s) (message_id d)\<rparr>
      else s)"

definition sender_openid :: "c2c_message \<Rightarrow> string" where
  "sender_openid d =
     (case author_attr d of None \<Rightarrow> [] | Some a \<Rightarrow> str_or_empty (user_openid a))"

text \<open>
  \<open>(getattr(data, "content", "") or "").strip()\<close>: a truthy value that is not a
  string has no \<open>strip\<close> and raises \<open>AttributeError\<close>.
\<close>

definition content_text :: "c2c_message \<Rightarrow> exc + string" where
  "content_text d =
     (case content_attr d of
        None \<Rightarrow> Inr []
      | Some v \<Rightarrow>
          if \<not> truthy v then Inr []
          else (case v of PStr c \<Rightarrow> Inr (strip c) | _ \<Rightarrow> Inl (Exc ''AttributeError'')))"

text \<open>
  \<open>_on_message\<close>, with what the awaited \<open>_handle_message\<close> of the base class does as
  the argument \<open>handle\<close>. The id is appended before the sender and the content are read.
\<close>

definition on_message :: "qq_channel \<Rightarrow> c2c_message \<Rightarrow> call \<Rightarrow> unit outcome" where
  "on_message s d handle =
     (if is_duplicate s d then (Inr (), s, [])
      else
        let s' = record_id s d
        in if sender_openid d = []
           then (Inr (), s', [Log Warning ''QQ message missing author.user_openid; ignored''])
           else (case content_text d of
                   Inl e \<Rightarrow> (Inr (), s', [Log Error ''Error handling QQ message''])
                 | Inr c \<Rightarrow>
                     if c = [] then (Inr (), s', [])
                     else
                       let ev = \<lparr>i_sender_id = sender_openid d, i_chat_id = sender_openid d,
                                 i_content = c, i_message_id = message_id d,
                                 i_user_openid = sender_openid d\<rparr>;
                           es = [Log Info (''QQ inbound from openid='' @ sender_openid d), Handle ev]
                       in (case handle of
                             Returns \<Rightarrow> (Inr (), s', es)
                           | Raises e \<Rightarrow>
                               if is_Exception e
                               then (Inr (), s', es @ [Log Error ''Error handling QQ message''])
                               else (Inl e, s', es))))"


subsection \<open>\<open>stop\<close>\<close>

text \<open>One guarded teardown call: an \<open>Exception\<close> is logged at debug level and dropped.\<close>

definition teardown :: "string \<Rightarrow> string \<Rightarrow> call \<Rightarrow> exc option \<times> effect list" where
  "teardown name msg k =
     (case k of
        Returns \<Rightarrow> (None, [Teardown name])
      | Raises e \<Rightarrow>
          if is_Exception e then (None, [Teardown name, Log Debug (msg @ exc_str e)])
          else (Some e, [Teardown name]))"

definition stop :: "qq_channel \<Rightarrow> unit outcome" where
  "stop s =
     (let s1 = s\<lparr>running := False\<rparr>
      in (case client s1 of
            None \<Rightarrow> (Inr (), s1\<lparr>client := None\<rparr>, [Log Info ''QQ bot stopped''])
          | Some c \<Rightarrow>
              (let first =
                     (case close_fn c of
                        Some k \<Rightarrow> teardown ''close'' ''QQ client close error (ignored): '' k
                      | None \<Rightarrow>
                          (case http_close c of
                             Some k \<Rightarrow> teardown ''http.close'' ''QQ http close error (ignored): '' k
                           | None \<Rightarrow> (None, [])))
               in (case first of
                     (Some e, es) \<Rightarrow> (Inl e, s1, es)
                   | (None, es) \<Rightarrow>
                       (let second =
                              (case stop_fn c of
                                 Some k \<Rightarrow> teardown ''stop'' ''QQ client stop error (ignored): '' k
                               | None \<Rightarrow> (None, []))
                        in (case second of
                              (Some e, es2) \<Rightarrow> (Inl e, s1, es @ es2)
                            | (None, es2) \<Rightarrow>
                                (Inr (), s1\<lparr>client := None\<rparr>,
                                 es @ es2 @ [Log Info ''QQ bot stopped''])))))))"

subsection \<open>\<open>_run_bot\<close> and \<open>start\<close>\<close>

text \<open>
  The loop runs on one cooperative task: other code runs only while the loop is suspended
  at an \<open>await\<close>, that is during the connection attempt and during the backoff sleep. A
  round says, for one iteration, what each of the two awaited calls does and whether
  \<open>stop\<close> is called while it is pending. \<open>stop\<close> clears the flag in its first
  statement, and the loop reads nothing else that \<open>stop\<close> writes before it tests the flag.
\<close>

datatype env = Idle | StopCalled

definition during :: "env \<Rightarrow> qq_channel \<Rightarrow> qq_channel" where
  "during e s = (case e of Idle \<Rightarrow> s | StopCalled \<Rightarrow> fst (snd (stop s)))"

record round =
  connect :: call
  in_connect :: env
  sleep :: call
  in_sleep :: env

text \<open>
  How the loop ends: it returns, an exception leaves it, or (\<open>Pending\<close>) the rounds
  given are used up and the loop is still running.
\<close>

datatype status = Returned | Propagated exc | Pending

definition none_has_no_start :: string where
  "none_has_no_start =
     [CHR 0x27] @ ''NoneType'' @ [CHR 0x27] @ '' object has no attribute ''
       @ [CHR 0x27] @ ''start'' @ [CHR 0x27]"

text \<open>
  The \<open>try\<close> block of one iteration. The first component is \<open>Some\<close> when control
  leaves the loop (\<open>break\<close> on cancellation, or an exception no handler takes).
\<close>

definition attempt :: "qq_channel \<Rightarrow> round \<Rightarrow> status option \<times> qq_channel \<times> effect list" where
  "attempt s r =
     (case client s of
        None \<Rightarrow> (None, s, [Log Warning (''QQ bot error: '' @ none_has_no_start)])
      | Some c \<Rightarrow>
          let s1 = during (in_connect r) s
          in (case connect r of
                Returns \<Rightarrow> (None, s1, [Connect])
              | Raises CancelledError \<Rightarrow> (Some Returned, s1, [Connect])
              | Raises (Exc m) \<Rightarrow> (None, s1, [Connect, Log Warning (''QQ bot error: '' @ m)])
              | Raises (OtherBase m) \<Rightarrow> (Some (Propagated (OtherBase m)), s1, [Connect])))"

fun run_bot :: "qq_channel \<Rightarrow> round list \<Rightarrow> status \<times> qq_channel \<times> effect list" where
  "run_bot s [] = (if running s then (Pending, s, []) else (Returned, s, []))"
| "run_bot s (r # rs) =
     (if \<not> running s then (Returned, s, [])
      else
        (case attempt s r of
           (Some st, s1, es) \<Rightarrow> (st, s1, es)
         | (None, s1, es) \<Rightarrow>
             if running s1
             then
               (let s2 = during (in_sleep r) s1;
                    es2 = es @ [Log Info ''Reconnecting QQ bot in 5 seconds...'', Sleep 5]
                in (case sleep r of
                      Raises e \<Rightarrow> (Propagated e, s2, es2)
                    | Returns \<Rightarrow>
                        (case run_bot s2 rs of (st, s3, es3) \<Rightarrow> (st, s3, es2 @ es3))))
             else (case run_bot s1 rs of (st, s3, es3) \<Rightarrow> (st, s3, es @ es3))))"

definition attempts :: "effect list \<Rightarrow> nat" where
  "attempts es = length (filter (\<lambda>e. e = Connect) es)"

text \<open>The two assignments \<open>start\<close> makes before it enters the loop.\<close>

definition connected :: "client \<Rightarrow> qq_channel \<Rightarrow> qq_channel" where
  "connected c s = s\<lparr>running := True, client := Some c\<rparr>"

text \<open>
  \<open>start\<close>: \<open>available\<close> is \<open>QQ_AVAILABLE\<close>, \<open>app_id\<close> and \<open>secret\<close> come from the
  configuration, \<open>c\<close> is the client object that the bot class constructs.
\<close>

definition start ::
  "bool \<Rightarrow> string \<Rightarrow> string \<Rightarrow> client \<Rightarrow> qq_channel \<Rightarrow> round list
     \<Rightarrow> status \<times> qq_channel \<times> effect list" where
  "start available app_id secret c s rounds =
     (if \<not> available
      then (Returned, s, [Log Error ''QQ SDK not installed. Run: pip install qq-botpy''])
      else if app_id = [] \<or> secret = []
      then (Returned, s, [Log Error ''QQ app_id and secret not configured''])
      else
        (case run_bot (connected c s) rounds of
           (st, s', es) \<Rightarrow> (st, s', Log Info ''QQ bot started (C2C private message)'' # es)))"

subsection \<open>Histories of one channel\<close>

text \<open>
  The fields of a channel are written by \<open>send\<close>, \<open>_on_message\<close>, \<open>stop\<close> and the
  two assignments of \<open>start\<close> only (the loop changes nothing by itself), so every history
  of one channel is a list of these four operations applied to \<open>init\<close>.
\<close>

datatype op =
    DoSend outbound_message call
  | DoInbound c2c_message call
  | DoStop
  | DoStart client

fun step :: "qq_channel \<Rightarrow> op \<Rightarrow> qq_channel \<times> effect list" where
  "step s (DoSend m post) = snd (send s m post)"
| "step s (DoInbound d handle) = snd (on_message s d handle)"
| "step s DoStop = snd (stop s)"
| "step s (DoStart c) = (connected c s, [Log Info ''QQ bot started (C2C private message)''])"

fun run :: "qq_channel \<Rightarrow> op list \<Rightarrow> qq_channel \<times> effect list" where
  "run s [] = (s, [])"
| "run s (x # xs) =
     (case step s x of (s', es) \<Rightarrow> (case run s' xs of (s'', es') \<Rightarrow> (s'', es @ es')))"

text \<open>Whether an operation is a \<open>send\<close> under a conversation key other than \<open>k\<close>.\<close>

fun other_key_send :: "string \<times> string \<Rightarrow> op \<Rightarrow> bool" where
  "other_key_send k (DoSend m post) = (seq_key m \<noteq> k)"
| "other_key_send k x = False"



text \<open>A deque holds no more than its bound.\<close>

definition dq_ok :: "deque \<Rightarrow> bool" where
  "dq_ok d = (length (dq_items d) \<le> dq_maxlen d)"

subsection \<open>Sample values\<close>

definition ex_client :: client where
  "ex_client = \<lparr>close_fn = Some Returns, http_close = None, stop_fn = None\<rparr>"

definition ex_channel :: qq_channel where
  "ex_channel = connected ex_client init"

definition ex_msg :: outbound_message where
  "ex_msg = \<lparr>chat_id = ''u1'', content = ''hello'', reply_to = Some ''m1'',
             metadata = Map.empty\<rparr>"

definition ex_other :: outbound_message where
  "ex_other = \<lparr>chat_id = ''u2'', content = ''hi'', reply_to = None,
               metadata = [''message_id'' \<mapsto> PStr ''m7'']\<rparr>"

definition ex_event :: "string \<Rightarrow> string \<Rightarrow> string \<Rightarrow> c2c_message" where
  "ex_event i u c =
     \<lparr>id_attr = Some (PStr i), author_attr = Some \<lparr>user_openid = Some (PStr u)\<rparr>,
      content_attr = Some (PStr c)\<rparr>"

definition ex_history :: "op list" where
  "ex_history =
     [DoStart ex_client, DoSend ex_msg Returns, DoSend ex_other Returns,
      DoSend ex_msg (Raises (Exc ''timeout'')), DoStop, DoSend ex_msg Returns,
      DoStart ex_client, DoSend ex_msg Returns]"


text \<open>1001 events with the ids \<open>a\<close>, \<open>aa\<close>, \<open>aaa\<close>, ...\<close>

definition ex_burst :: "(c2c_message \<times> call) list" where
  "ex_burst = map (\<lambda>n. (ex_event (replicate (Suc n) CHR ''a'') ''u1'' ''hi'', Returns)) [0..<1001]"


section \<open>Tool parameters and the tool registry\<close>

text \<open>
  The test file \<open>tests/test_tool_validation.py\<close> exercises \<open>Tool.validate_params\<close> of
  \<open>nanobot/agent/tools/base.py\<close> and \<open>ToolRegistry.execute\<close> of
  \<open>nanobot/agent/tools/registry.py\<close>. Neither module is among the sources, so the
  validator and the registry are modelled from the specification (its sections 3, 4.1
  and 4.2); the sample tool is the one of the test file.
\<close>

subsection \<open>Values and schemas\<close>

text \<open>
  Modelled from the spec: the argument values of \<open>Tool.validate_params\<close>
  (\<open>nanobot/agent/tools/base.py\<close>, not among the sources). A value is what a JSON
  document holds; a float is kept as mantissa and exponent, since the validator only
  asks whether a value is one. A mapping is an association list read with \<open>map_of\<close>.
\<close>

datatype jvalue =
    JNull
  | JBool bool
  | JInt int
  | JFloat int int
  | JStr string
  | JArr "jvalue list"
  | JObj "(string \<times> jvalue) list"

text \<open>
  Modelled from the spec: the schema of the data model (section 3), declared in
  \<open>nanobot/agent/tools/base.py\<close>, which is not among the sources. A node is a string
  with optional \<open>minLength\<close> and \<open>enum\<close>, an integer with optional \<open>minimum\<close> and
  \<open>maximum\<close>, an array with optional \<open>items\<close>, or an object with its \<open>properties\<close> in
  declaration order and its \<open>required\<close> names.
\<close>

datatype schema =
    SString "nat option" "string list option"
  | SInteger "int option" "int option"
  | SArray "schema option"
  | SObject "(string \<times> schema) list" "string list"

subsection \<open>The validator\<close>

text \<open>
  Modelled from the spec: the dotted and bracketed paths of section 3 (\<open>meta.tag\<close>,
  \<open>meta.flags[0]\<close>), built by \<open>Tool._validate\<close> of \<open>nanobot/agent/tools/base.py\<close>, which
  is not among the sources. The path of the argument mapping itself is empty.
\<close>

definition child :: "string \<Rightarrow> string \<Rightarrow> string" where
  "child path k = (if path = [] then k else path @ ''.'' @ k)"

text \<open>
  Modelled from the spec: the path \<open><path>[i]\<close> of the element at index \<open>i\<close> (section
  4.1, \<open>array\<close>); the code that builds it is in \<open>nanobot/agent/tools/base.py\<close>, not among
  the sources.
\<close>

definition element :: "string \<Rightarrow> nat \<Rightarrow> string" where
  "element path i = path @ ''['' @ str_nat i @ '']''"

text \<open>
  Modelled from the spec: the \<open>minLength\<close> check of a string node (section 4.1: "if
  \<open>minLength\<close> set and length is below it, emit \<open><path> must be at least N chars\<close>"); the
  code is in \<open>nanobot/agent/tools/base.py\<close>, not among the sources.
\<close>

definition check_min_length :: "string \<Rightarrow> nat option \<Rightarrow> string \<Rightarrow> string list" where
  "check_min_length path minLength s =
     (case minLength of
        None \<Rightarrow> []
      | Some n \<Rightarrow>
          if length s < n then [path @ '' must be at least '' @ str_nat n @ '' chars''] else [])"

text \<open>
  Modelled from the spec: the \<open>enum\<close> check of a string node (section 4.1: "if \<open>enum\<close> set
  and value not a member, emit \<open><path> must be one of {...}\<close>"); the code is in
  \<open>nanobot/agent/tools/base.py\<close>, not among the sources. The specification does not fix
  how the members are written out, so their rendering is the parameter \<open>show_enum\<close>.
\<close>

definition check_enum ::
  "(string list \<Rightarrow> string) \<Rightarrow> string \<Rightarrow> string list option \<Rightarrow> string \<Rightarrow> string list" where
  "check_enum show_enum path enum s =
     (case enum of
        None \<Rightarrow> []
      | Some ms \<Rightarrow> if s \<in> set ms then [] else [path @ '' must be one of '' @ show_enum ms])"

text \<open>
  Modelled from the spec: the \<open>minimum\<close> check of an integer node (section 4.1: "if below
  \<open>minimum\<close>, emit \<open><path> must be >= N\<close>"); the code is in
  \<open>nanobot/agent/tools/base.py\<close>, not among the sources.
\<close>

definition check_minimum :: "string \<Rightarrow> int option \<Rightarrow> int \<Rightarrow> string list" where
  "check_minimum path minimum i =
     (case minimum of
        None \<Rightarrow> []
      | Some n \<Rightarrow> if i < n then [path @ '' must be >= '' @ str_int n] else [])"

text \<open>
  Modelled from the spec: the \<open>maximum\<close> check of an integer node (section 4.1: "if above
  \<open>maximum\<close>, emit \<open><path> must be <= N\<close>"); the code is in
  \<open>nanobot/agent/tools/base.py\<close>, not among the sources.
\<close>

definition check_maximum :: "string \<Rightarrow> int option \<Rightarrow> int \<Rightarrow> string list" where
  "check_maximum path maximum i =
     (case maximum of
        None \<Rightarrow> []
      | Some n \<Rightarrow> if n < i then [path @ '' must be <= '' @ str_int n] else [])"

text \<open>
  Modelled from the spec: the \<open>required\<close> check of an object node (section 4.1: "for each
  name in \<open>schema.required\<close> absent from \<open>value\<close>, emit \<open>missing required <path>\<close>"); the
  code is in \<open>nanobot/agent/tools/base.py\<close>, not among the sources.
\<close>

definition check_required :: "string \<Rightarrow> (string \<times> jvalue) list \<Rightarrow> string \<Rightarrow> string list" where
  "check_required path kvs k =
     (if map_of kvs k = None then [''missing required '' @ child path k] else [])"

text \<open>
  Modelled from the spec: \<open>SchemaValidator.validate\<close>, that is \<open>Tool._validate\<close> of
  \<open>nanobot/agent/tools/base.py\<close>, which is not among the sources. The algorithm is the
  one of section 4.1, node by node. A string node reports a value that is not a string,
  else a length below \<open>minLength\<close>, else a value outside \<open>enum\<close>. An integer node
  reports a value that is not an integer (a numeric string or a float does not pass),
  else a value below \<open>minimum\<close> and a value above \<open>maximum\<close>. An array node reports a
  value that is not a sequence, else what its elements violate against \<open>items\<close>, in
  index order. An object node reports the required names that are absent, then what
  the values of the declared properties that are present violate, in declaration
  order; keys that are not declared are ignored.

  Section 4.1 gives no message for an object node whose value is not a mapping. Its
  rule that any type mismatch ends the checks of the node is applied to that node too,
  with the message of the three other kinds of node. A boolean and \<open>null\<close> are of none
  of the four types.
\<close>

fun validate :: "(string list \<Rightarrow> string) \<Rightarrow> schema \<Rightarrow> string \<Rightarrow> jvalue \<Rightarrow> string list" where
  "validate f (SString minLength enum) path v =
     (case v of
        JStr s \<Rightarrow>
          if check_min_length path minLength s \<noteq> [] then check_min_length path minLength s
          else check_enum f path enum s
      | _ \<Rightarrow> [path @ '' should be string''])"
| "validate f (SInteger minimum maximum) path v =
     (case v of
        JInt i \<Rightarrow> check_minimum path minimum i @ check_maximum path maximum i
      | _ \<Rightarrow> [path @ '' should be integer''])"
| "validate f (SArray items) path v =
     (case v of
        JArr xs \<Rightarrow>
          (case items of
             None \<Rightarrow> []
           | Some sch \<Rightarrow>
               concat (map (\<lambda>(i, x). validate f sch (element path i) x) (enumerate 0 xs)))
      | _ \<Rightarrow> [path @ '' should be array''])"
| "validate f (SObject properties required) path v =
     (case v of
        JObj kvs \<Rightarrow>
          concat (map (check_required path kvs) required) @
          concat (map (\<lambda>(k, sch).
                    case map_of kvs k of
                      None \<Rightarrow> []
                    | Some x \<Rightarrow> validate f sch (child path k) x) properties)
      | _ \<Rightarrow> [path @ '' should be object''])"

text \<open>
  Modelled from the spec: what it is for a value to satisfy a schema structurally, in
  the words of section 8 ("satisfies every required/type/range/enum/length constraint in
  S"). This predicate is no part of \<open>nanobot/agent/tools/base.py\<close> (which is not among
  the sources); it is the property the validator is compared with. It builds no
  messages and no paths.
\<close>

fun satisfies :: "schema \<Rightarrow> jvalue \<Rightarrow> bool" where
  "satisfies (SString minLength enum) v =
     (case v of
        JStr s \<Rightarrow>
          (case minLength of None \<Rightarrow> True | Some n \<Rightarrow> n \<le> length s) \<and>
          (case enum of None \<Rightarrow> True | Some ms \<Rightarrow> s \<in> set ms)
      | _ \<Rightarrow> False)"
| "satisfies (SInteger minimum maximum) v =
     (case v of
        JInt i \<Rightarrow>
          (case minimum of None \<Rightarrow> True | Some n \<Rightarrow> n \<le> i) \<and>
          (case maximum of None \<Rightarrow> True | Some n \<Rightarrow> i \<le> n)
      | _ \<Rightarrow> False)"
| "satisfies (SArray items) v =
     (case v of
        JArr xs \<Rightarrow> (case items of None \<Rightarrow> True | Some sch \<Rightarrow> list_all (satisfies sch) xs)
      | _ \<Rightarrow> False)"
| "satisfies (SObject properties required) v =
     (case v of
        JObj kvs \<Rightarrow>
          list_all (\<lambda>k. map_of kvs k \<noteq> None) required \<and>
          list_all (\<lambda>(k, sch).
                      case map_of kvs k of None \<Rightarrow> True | Some x \<Rightarrow> satisfies sch x) properties
      | _ \<Rightarrow> False)"



subsection \<open>Tools and the registry\<close>

text \<open>
  Modelled from the spec: the tool descriptor of section 3 (name, description,
  parameters) with its invocation capability, the class \<open>Tool\<close> of
  \<open>nanobot/agent/tools/base.py\<close>, which is not among the sources. An invocation
  produces a text or fails with an exception.
\<close>

record tool =
  name :: string
  description :: string
  parameters :: schema
  invoke :: "(string \<times> jvalue) list \<Rightarrow> exc + string"

text \<open>
  Modelled from the spec: the texts that sections 4.1 and 4.2 describe without fixing
  their wording, produced by \<open>nanobot/agent/tools/base.py\<close> and
  \<open>nanobot/agent/tools/registry.py\<close>, which are not among the sources: how the members
  of an \<open>enum\<close> are written, how the violations are joined, the result "encoding unknown
  tool \<open><name>\<close>", and the "textual error result" of a failed invocation. They are
  parameters of the model.
\<close>

record texts =
  show_enum :: "string list \<Rightarrow> string"
  join_violations :: "string list \<Rightarrow> string"
  unknown_tool :: "string \<Rightarrow> string"
  invocation_failed :: "string \<Rightarrow> exc \<Rightarrow> string"

text \<open>
  Modelled from the spec: the registry of section 3, "a mapping from tool name to Tool
  descriptor + invocation capability", and \<open>register\<close> of section 4.2, which "adds/replaces
  the tool keyed by its name"; the class \<open>ToolRegistry\<close> of
  \<open>nanobot/agent/tools/registry.py\<close> is not among the sources.
\<close>

type_synonym registry = "string \<rightharpoonup> tool"

definition register :: "registry \<Rightarrow> tool \<Rightarrow> registry" where
  "register reg t = reg(name t \<mapsto> t)"

text \<open>
  Modelled from the spec: \<open>Tool.validate_params\<close> of \<open>nanobot/agent/tools/base.py\<close>,
  which is not among the sources: the validator run on the argument mapping against
  the schema of the tool, from the empty path.
\<close>

definition validate_params :: "texts \<Rightarrow> tool \<Rightarrow> (string \<times> jvalue) list \<Rightarrow> string list" where
  "validate_params tx t args = validate (show_enum tx) (parameters t) [] (JObj args)"

text \<open>
  Modelled from the spec: \<open>ToolRegistry.execute\<close> of \<open>nanobot/agent/tools/registry.py\<close>,
  which is not among the sources, as section 4.2 describes it: look the tool up; if it
  is absent, return the text for an unknown tool; if the arguments violate its schema,
  return \<open>Invalid parameters: <joined violations>\<close> without invoking it; otherwise invoke
  it and return its result, and turn any failure of the invocation into a text. The
  outcome is a sum, so that an exception leaving \<open>execute\<close> would be a value \<open>Inl\<close>. The
  second component lists the invocations made, with their arguments (the call counter
  of section 8).
\<close>

definition execute ::
  "texts \<Rightarrow> registry \<Rightarrow> string \<Rightarrow> (string \<times> jvalue) list
     \<Rightarrow> (exc + string) \<times> (string \<times> (string \<times> jvalue) list) list" where
  "execute tx reg nm args =
     (case reg nm of
        None \<Rightarrow> (Inr (unknown_tool tx nm), [])
      | Some t \<Rightarrow>
          (case validate_params tx t args of
             [] \<Rightarrow>
               (case invoke t args of
                  Inr out \<Rightarrow> (Inr out, [(nm, args)])
                | Inl e \<Rightarrow> (Inr (invocation_failed tx nm e), [(nm, args)]))
           | e # es \<Rightarrow> (Inr (''Invalid parameters: '' @ join_violations tx (e # es)), [])))"

subsection \<open>The sample tool of the tests\<close>

text \<open>\<open>SampleTool.parameters\<close> of \<open>tests/test_tool_validation.py\<close>.\<close>

definition sample_properties :: "(string \<times> schema) list" where
  "sample_properties =
     [(''query'', SString (Some 2) None),
      (''count'', SInteger (Some 1) (Some 10)),
      (''mode'', SString None (Some [''fast'', ''full''])),
      (''meta'',
         SObject
           [(''tag'', SString None None),
            (''flags'', SArray (Some (SString None None)))]
           [''tag''])]"

definition sample_schema :: schema where
  "sample_schema = SObject sample_properties [''query'', ''count'']"

text \<open>\<open>SampleTool\<close>: its \<open>execute\<close> returns \<open>"ok"\<close>.\<close>

definition sample_tool :: tool where
  "sample_tool =
     \<lparr>name = ''sample'', description = ''sample tool'', parameters = sample_schema,
      invoke = (\<lambda>args. Inr ''ok'')\<rparr>"

text \<open>A tool without parameters whose invocation raises.\<close>

definition failing_tool :: tool where
  "failing_tool =
     \<lparr>name = ''broken'', description = ''a tool that fails'', parameters = SObject [] [],
      invoke = (\<lambda>args. Inl (Exc ''boom''))\<rparr>"

text \<open>One choice of the texts that the specification leaves open.\<close>

definition sample_texts :: texts where
  "sample_texts =
     \<lparr>show_enum = (\<lambda>ms. concat (map (\<lambda>m. m @ '' '') ms)),
      join_violations = (\<lambda>es. concat (map (\<lambda>e. e @ ''; '') es)),
      unknown_tool = (\<lambda>nm. ''unknown tool '' @ nm),
      invocation_failed = (\<lambda>nm e. ''error executing '' @ nm)\<rparr>"

definition sample_registry :: registry where
  "sample_registry = register (register Map.empty sample_tool) failing_tool"


section \<open>Properties of the channel\<close>

subsection \<open>Sequence numbers\<close>

lemma issued_append: "issued k (es @ fs) = issued k es @ issued k fs"
  by (induction k es rule: issued.induct) auto

lemma post_key_send:
  "post_key \<lparr>p_openid = chat_id m, p_msg_type = t, p_content = c, p_msg_id = reply_msg_id m, p_msg_seq = n\<rparr> = seq_key m"
  by (simp add: post_key_def seq_key_def)

lemma send_issued:
  "issued k (snd (snd (send s m post))) =
     (if client s \<noteq> None \<and> seq_key m = k then [seq_get (msg_seq s) k + 1] else [])"
  by (cases "client s") (auto simp: send_def Let_def post_key_send split: call.splits)

lemma send_seq_get:
  "seq_get (msg_seq (fst (snd (send s m post)))) k =
     (if client s \<noteq> None \<and> seq_key m = k then seq_get (msg_seq s) k + 1 else seq_get (msg_seq s) k)"
  by (cases "client s") (auto simp: send_def Let_def seq_get_def split: call.splits)

lemma send_client: "client (fst (snd (send s m post))) = client s"
  by (cases "client s") (auto simp: send_def Let_def split: call.splits)

lemma on_message_msg_seq: "msg_seq (fst (snd (on_message s d h))) = msg_seq s"
  by (auto simp: on_message_def record_id_def Let_def split: sum.splits call.splits)

lemma on_message_client: "client (fst (snd (on_message s d h))) = client s"
  by (auto simp: on_message_def record_id_def Let_def split: sum.splits call.splits)

lemma on_message_issued: "issued k (snd (snd (on_message s d h))) = []"
  by (auto simp: on_message_def Let_def split: sum.splits call.splits)

lemma teardown_issued: "teardown n msg c = (r, es) \<Longrightarrow> issued k es = []"
  by (auto simp: teardown_def split: call.splits if_splits)

lemma stop_msg_seq: "msg_seq (fst (snd (stop s))) = msg_seq s"
  by (auto simp: stop_def Let_def split: option.splits prod.splits)

lemma stop_issued: "issued k (snd (snd (stop s))) = []"
  by (auto simp: stop_def Let_def issued_append split: option.splits prod.splits
           dest: teardown_issued)

lemma step_issued:
  "issued k (snd (step s x)) =
     (case x of
        DoSend m post \<Rightarrow>
          if client s \<noteq> None \<and> seq_key m = k then [seq_get (msg_seq s) k + 1] else []
      | _ \<Rightarrow> [])"
  by (cases x) (simp_all add: send_issued on_message_issued stop_issued)

lemma step_seq_get:
  "seq_get (msg_seq (fst (step s x))) k =
     seq_get (msg_seq s) k + int (length (issued k (snd (step s x))))"
  by (cases x)
     (simp_all add: send_issued send_seq_get on_message_issued on_message_msg_seq
        stop_issued stop_msg_seq connected_def)

lemma upt_shift:
  "(c + 1) # map (\<lambda>i. c + 1 + int i) [1..<Suc n] = map (\<lambda>i. c + int i) [1..<Suc (Suc n)]"
proof -
  have "[1..<Suc (Suc n)] = 1 # map Suc [1..<Suc n]"
    by (metis One_nat_def map_Suc_upt upt_conv_Cons zero_less_Suc Suc_less_eq)
  then show ?thesis by (simp add: comp_def)
qed


lemma run_Cons: "run s (x # xs) = (fst (run (fst (step s x)) xs), snd (step s x) @ snd (run (fst (step s x)) xs))"
  by (simp split: prod.splits)

declare run.simps(2) [simp del]

lemma run_append:
  "run s (xs @ ys) = (fst (run (fst (run s xs)) ys), snd (run s xs) @ snd (run (fst (run s xs)) ys))"
  by (induction xs arbitrary: s) (simp_all add: run_Cons)

lemma run_issued:
  "issued k (snd (run s xs)) =
     map (\<lambda>i. seq_get (msg_seq s) k + int i) [1..<Suc (length (issued k (snd (run s xs))))]"
proof (induction xs arbitrary: s)
  case Nil
  then show ?case by simp
next
  case (Cons x xs)
  let ?s' = "fst (step s x)"
  let ?n = "length (issued k (snd (run ?s' xs)))"
  have ih: "issued k (snd (run ?s' xs)) = map (\<lambda>i. seq_get (msg_seq ?s') k + int i) [1..<Suc ?n]"
    by (rule Cons.IH)
  show ?case
  proof (cases "issued k (snd (step s x)) = []")
    case True
    then have "seq_get (msg_seq ?s') k = seq_get (msg_seq s) k"
      using step_seq_get[of s x k] by simp
    with True ih show ?thesis by (simp add: run_Cons issued_append del: upt_Suc)
  next
    case False
    then have one: "issued k (snd (step s x)) = [seq_get (msg_seq s) k + 1]"
      using step_issued[of k s x] by (auto split: op.splits if_splits)
    then have sg: "seq_get (msg_seq ?s') k = seq_get (msg_seq s) k + 1"
      using step_seq_get[of s x k] by simp
    have "issued k (snd (run s (x # xs))) =
            (seq_get (msg_seq s) k + 1) # map (\<lambda>i. seq_get (msg_seq s) k + 1 + int i) [1..<Suc ?n]"
      using one ih sg by (simp add: run_Cons issued_append del: upt_Suc)
    also have "\<dots> = map (\<lambda>i. seq_get (msg_seq s) k + int i) [1..<Suc (Suc ?n)]"
      by (rule upt_shift)
    finally show ?thesis using one by (simp add: run_Cons issued_append del: upt_Suc)
  qed
qed

lemma stop_client_cong:
  "client s = client t \<Longrightarrow> client (fst (snd (stop s))) = client (fst (snd (stop t)))"
  by (auto simp: stop_def Let_def split: option.splits prod.splits)

lemma step_cong_issued:
  "client s = client t \<Longrightarrow> seq_get (msg_seq s) k = seq_get (msg_seq t) k \<Longrightarrow>
   issued k (snd (step s x)) = issued k (snd (step t x))"
  by (cases x) (simp_all add: send_issued on_message_issued stop_issued)

lemma step_cong_client:
  "client s = client t \<Longrightarrow> client (fst (step s x)) = client (fst (step t x))"
  using stop_client_cong [of s t]
  by (cases x) (simp_all add: send_client on_message_client connected_def)

lemma step_cong_seq:
  "client s = client t \<Longrightarrow> seq_get (msg_seq s) k = seq_get (msg_seq t) k \<Longrightarrow>
   seq_get (msg_seq (fst (step s x))) k = seq_get (msg_seq (fst (step t x))) k"
  by (cases x) (simp_all add: send_seq_get on_message_msg_seq stop_msg_seq connected_def)

lemma step_other_issued: "other_key_send k x \<Longrightarrow> issued k (snd (step s x)) = []"
  by (cases x) (simp_all add: send_issued)

lemma step_other_client: "other_key_send k x \<Longrightarrow> client (fst (step s x)) = client s"
  by (cases x) (simp_all add: send_client)

lemma step_other_seq:
  "other_key_send k x \<Longrightarrow> seq_get (msg_seq (fst (step s x))) k = seq_get (msg_seq s) k"
  by (cases x) (simp_all add: send_seq_get)

lemma sorted_wrt_shift:
  "sorted_wrt (<) (map (\<lambda>i. (c::int) + int i) [a..<b])"
  unfolding sorted_wrt_map by (rule sorted_wrt_mono_rel [OF _ sorted_wrt_upt]) simp

lemma seq_get_init: "seq_get (msg_seq init) k = 0"
  by (simp add: init_def seq_get_def)


lemma run_filter_cong:
  "client s = client t \<Longrightarrow> seq_get (msg_seq s) k = seq_get (msg_seq t) k \<Longrightarrow>
   issued k (snd (run s xs)) =
   issued k (snd (run t (filter (\<lambda>x. \<not> other_key_send k x) xs)))"
proof (induction xs arbitrary: s t)
  case Nil
  then show ?case by simp
next
  case (Cons x xs)
  show ?case
  proof (cases "other_key_send k x")
    case True
    have "issued k (snd (run (fst (step s x)) xs)) =
          issued k (snd (run t (filter (\<lambda>x. \<not> other_key_send k x) xs)))"
    proof (rule Cons.IH)
      show "client (fst (step s x)) = client t"
        using Cons.prems(1) step_other_client [OF True, of s] by simp
      show "seq_get (msg_seq (fst (step s x))) k = seq_get (msg_seq t) k"
        using Cons.prems(2) step_other_seq [OF True, of s] by simp
    qed
    then show ?thesis
      using True step_other_issued [OF True, of s] by (simp add: run_Cons issued_append)
  next
    case False
    have "issued k (snd (run (fst (step s x)) xs)) =
          issued k (snd (run (fst (step t x)) (filter (\<lambda>x. \<not> other_key_send k x) xs)))"
    proof (rule Cons.IH)
      show "client (fst (step s x)) = client (fst (step t x))"
        using Cons.prems(1) by (rule step_cong_client)
      show "seq_get (msg_seq (fst (step s x))) k = seq_get (msg_seq (fst (step t x))) k"
        using Cons.prems by (rule step_cong_seq)
    qed
    then show ?thesis
      using False step_cong_issued [OF Cons.prems, of x] by (simp add: run_Cons issued_append)
  qed
qed

lemma run_seq_get:
  "seq_get (msg_seq (fst (run s xs))) k =
     seq_get (msg_seq s) k + int (length (issued k (snd (run s xs))))"
proof (induction xs arbitrary: s)
  case Nil
  then show ?case by simp
next
  case (Cons x xs)
  show ?case
    using Cons.IH [of "fst (step s x)"] step_seq_get [of s x k]
    by (simp add: run_Cons issued_append)
qed

lemma run_seq_mono: "seq_get (msg_seq s) k \<le> seq_get (msg_seq (fst (run s xs))) k"
  by (simp add: run_seq_get)

lemma ex_history_issued:
  "issued (''u1'', ''m1'') (snd (run init ex_history)) = [1, 2, 3]"
  by (simp add: ex_history_def run_Cons send_def stop_def teardown_def connected_def init_def
      ex_client_def ex_msg_def ex_other_def seq_key_def reply_msg_id_def str_or_empty_def
      seq_get_def post_key_def deque_new_def Let_def)

text \<open>
  C3. In any history of a channel, the sequence numbers handed to the transport under
  one conversation key are, in the order of the calls, the next integers after the value
  the key had at the start: from a new channel they are 1, 2, 3, ... They increase
  strictly, so none is used twice, and removing the sends under other keys from the
  history leaves them unchanged.
\<close>

theorem sequence_numbers:
  "issued k (snd (run s xs)) =
     map (\<lambda>i. seq_get (msg_seq s) k + int i) [1..<Suc (length (issued k (snd (run s xs))))]
   \<and> issued k (snd (run init xs)) = map int [1..<Suc (length (issued k (snd (run init xs))))]
   \<and> sorted_wrt (<) (issued k (snd (run s xs)))
   \<and> distinct (issued k (snd (run s xs)))
   \<and> issued k (snd (run s xs)) =
       issued k (snd (run s (filter (\<lambda>x. \<not> other_key_send k x) xs)))"
proof -
  have a: "issued k (snd (run s xs)) =
     map (\<lambda>i. seq_get (msg_seq s) k + int i) [1..<Suc (length (issued k (snd (run s xs))))]"
    by (rule run_issued)
  have b: "issued k (snd (run init xs)) = map int [1..<Suc (length (issued k (snd (run init xs))))]"
    using run_issued [of k init xs] by (simp add: seq_get_init del: upt_Suc)
  have c: "sorted_wrt (<) (issued k (snd (run s xs)))"
    by (subst a) (rule sorted_wrt_shift)
  have d: "distinct (issued k (snd (run s xs)))"
    using c by (simp add: strict_sorted_iff)
  have e: "issued k (snd (run s xs)) =
       issued k (snd (run s (filter (\<lambda>x. \<not> other_key_send k x) xs)))"
    by (rule run_filter_cong) simp_all
  from a b c d e show ?thesis by blast
qed

theorem sequence_numbers_witness:
  "issued (''u1'', ''m1'') (snd (run init ex_history)) = [1, 2, 3]
   \<and> issued (''u1'', ''m1'') (snd (run init ex_history)) =
       issued (''u1'', ''m1'')
         (snd (run init (filter (\<lambda>x. \<not> other_key_send (''u1'', ''m1'') x) ex_history)))"
  using sequence_numbers [of "(''u1'', ''m1'')" init ex_history] ex_history_issued by simp

text \<open>
  C8. The counter is written before the delivery attempt and is not restored when the
  attempt fails. A submission that raises still consumes its number: after a delivered
  send under key \<open>k\<close>, any further operations, a failed send under \<open>k\<close> and again
  any further operations, the next delivered send under \<open>k\<close> carries a number at least
  2 above the earlier delivered one.
\<close>

theorem failed_send_consumes_number:
  assumes "client s \<noteq> None" and "seq_key a = k"
    and "s1 = fst (snd (send s a Returns))" and "s2 = fst (run s1 mid1)"
    and "client s2 \<noteq> None" and "seq_key f = k"
    and "s3 = fst (snd (send s2 f (Raises e)))" and "s4 = fst (run s3 mid2)"
    and "client s4 \<noteq> None" and "seq_key b = k"
  shows "seq_get (msg_seq s3) k = seq_get (msg_seq s2) k + 1
    \<and> issued k (snd (snd (send s a Returns))) = [seq_get (msg_seq s) k + 1]
    \<and> issued k (snd (snd (send s4 b Returns))) = [seq_get (msg_seq s4) k + 1]
    \<and> seq_get (msg_seq s) k + 1 + 2 \<le> seq_get (msg_seq s4) k + 1"
proof -
  have 1: "seq_get (msg_seq s1) k = seq_get (msg_seq s) k + 1"
    using assms(1,2,3) by (simp add: send_seq_get)
  have 2: "seq_get (msg_seq s1) k \<le> seq_get (msg_seq s2) k"
    using assms(4) by (simp add: run_seq_mono)
  have 3: "seq_get (msg_seq s3) k = seq_get (msg_seq s2) k + 1"
    using assms(5,6,7) by (simp add: send_seq_get)
  have 4: "seq_get (msg_seq s3) k \<le> seq_get (msg_seq s4) k"
    using assms(8) by (simp add: run_seq_mono)
  have 5: "issued k (snd (snd (send s a Returns))) = [seq_get (msg_seq s) k + 1]"
    using assms(1,2) by (simp add: send_issued)
  have 6: "issued k (snd (snd (send s4 b Returns))) = [seq_get (msg_seq s4) k + 1]"
    using assms(9,10) by (simp add: send_issued)
  from 1 2 3 4 5 6 show ?thesis by simp
qed

theorem failed_send_consumes_number_witness:
  "client ex_channel \<noteq> None \<and> seq_key ex_msg = (''u1'', ''m1'')
   \<and> client (fst (run (fst (snd (send ex_channel ex_msg Returns)))
         [DoSend ex_other Returns])) \<noteq> None
   \<and> issued (''u1'', ''m1'') (snd (snd (send ex_channel ex_msg Returns))) = [1]
   \<and> issued (''u1'', ''m1'')
        (snd (snd (send
          (fst (run
            (fst (snd (send
              (fst (run (fst (snd (send ex_channel ex_msg Returns)))
                 [DoSend ex_other Returns]))
              ex_msg (Raises (Exc ''timeout'')))))
            []))
          ex_msg Returns))) = [3]"
  using failed_send_consumes_number
    [of ex_channel ex_msg "(''u1'', ''m1'')" _ _ "[DoSend ex_other Returns]" ex_msg _
        "Exc ''timeout''" _ "[]" ex_msg, OF _ _ refl refl _ _ refl refl]
  by (simp add: run_Cons send_def connected_def init_def ex_channel_def
      ex_client_def ex_msg_def ex_other_def seq_key_def reply_msg_id_def str_or_empty_def
      seq_get_def post_key_def deque_new_def Let_def)

subsection \<open>Failures of the transport\<close>

text \<open>
  C6 (as amended). An \<open>Exception\<close> raised by the submission is logged at error level
  and dropped: \<open>send\<close> returns normally, with the return value and the channel state
  of a successful submission, so the caller gets no signal of the failure; the exception
  does not leave \<open>send\<close>.
\<close>

theorem send_failure_swallowed:
  "client s \<noteq> None \<Longrightarrow> is_Exception e \<Longrightarrow>
   fst (send s m (Raises e)) = Inr () \<and> fst (send s m Returns) = Inr ()
   \<and> fst (snd (send s m (Raises e))) = fst (snd (send s m Returns))
   \<and> snd (snd (send s m (Raises e))) =
       snd (snd (send s m Returns)) @ [Log Error (''Error sending QQ message: '' @ exc_str e)]"
  by (cases "client s") (simp_all add: send_def Let_def)

theorem send_failure_swallowed_witness:
  "client ex_channel \<noteq> None \<and> is_Exception (Exc ''timeout'')
   \<and> send ex_channel ex_msg (Raises (Exc ''timeout'')) =
     (Inr (), fst (snd (send ex_channel ex_msg Returns)),
      [Post \<lparr>p_openid = ''u1'', p_msg_type = 0, p_content = ''hello'', p_msg_id = ''m1'',
             p_msg_seq = 1\<rparr>,
       Log Error ''Error sending QQ message: timeout''])"
  using send_failure_swallowed [of ex_channel "Exc ''timeout''" ex_msg]
  by (simp add: send_def Let_def ex_channel_def connected_def init_def ex_msg_def
      seq_key_def reply_msg_id_def seq_get_def)

text \<open>
  What the caller of \<open>send\<close> receives when the transport raises is what it receives
  when the transport accepts the message: the failure is not reported to the caller.
\<close>

theorem send_failure_not_reported:
  "fst (send ex_channel ex_msg (Raises (Exc ''timeout''))) = fst (send ex_channel ex_msg Returns)
   \<and> fst (snd (send ex_channel ex_msg (Raises (Exc ''timeout'')))) =
       fst (snd (send ex_channel ex_msg Returns))"
  by (simp add: send_def Let_def ex_channel_def connected_def)

subsection \<open>Deduplication of inbound events\<close>

lemma deque_append_maxlen: "dq_maxlen (deque_append d x) = dq_maxlen d"
  by (simp add: deque_append_def)

lemma deque_append_items:
  "dq_ok d \<Longrightarrow> 0 < dq_maxlen d \<Longrightarrow>
   dq_items (deque_append d x) =
     drop (Suc (length (dq_items d)) - dq_maxlen d) (dq_items d @ [x])"
  by (simp add: deque_append_def dq_ok_def)

lemma deque_append_ok: "dq_ok d \<Longrightarrow> dq_ok (deque_append d x)"
  by (auto simp: deque_append_def dq_ok_def)

lemma deque_append_mem: "0 < dq_maxlen d \<Longrightarrow> x \<in> set (dq_items (deque_append d x))"
  by (auto simp: deque_append_def)

lemma deque_append_subset: "set (dq_items (deque_append d x)) \<subseteq> insert x (set (dq_items d))"
  by (auto simp: deque_append_def dest: in_set_dropD)




lemma on_message_ids:
  "processed_ids (fst (snd (on_message s d h))) =
     (if is_duplicate s d \<or> message_id d = [] then processed_ids s
      else deque_append (processed_ids s) (message_id d))"
  by (auto simp: on_message_def record_id_def Let_def split: sum.splits call.splits)






lemma drop_drop_append:
  "k \<le> length xs \<Longrightarrow> drop a (drop k xs @ ys) = drop (a + k) (xs @ ys)"
  by (simp add: add.commute)

lemma window_step:
  assumes "length xs \<le> m" and "0 < (m::nat)"
  shows "drop (length (drop (Suc (length xs) - m) (xs @ [y]) @ ys) - m)
              (drop (Suc (length xs) - m) (xs @ [y]) @ ys) =
         drop (length (xs @ y # ys) - m) (xs @ y # ys)"
proof -
  let ?k = "Suc (length xs) - m"
  have k: "?k \<le> length (xs @ [y])" by simp
  have "drop (length (drop ?k (xs @ [y]) @ ys) - m) (drop ?k (xs @ [y]) @ ys) =
        drop (length (drop ?k (xs @ [y]) @ ys) - m + ?k) ((xs @ [y]) @ ys)"
    using k by (rule drop_drop_append)
  moreover have "length (drop ?k (xs @ [y]) @ ys) - m + ?k = length (xs @ y # ys) - m"
    using assms by auto
  ultimately show ?thesis by simp
qed

lemma run_inbound_items:
  "dq_ok (processed_ids s) \<Longrightarrow> 0 < dq_maxlen (processed_ids s) \<Longrightarrow>
   distinct (map (\<lambda>p. message_id (fst p)) ds) \<Longrightarrow>
   \<forall>e \<in> set ds. message_id (fst e) \<noteq> [] \<and>
      message_id (fst e) \<notin> set (dq_items (processed_ids s)) \<Longrightarrow>
   dq_items (processed_ids (fst (run s (map (\<lambda>(e, h). DoInbound e h) ds)))) =
     drop (length (dq_items (processed_ids s) @ map (\<lambda>p. message_id (fst p)) ds)
             - dq_maxlen (processed_ids s))
          (dq_items (processed_ids s) @ map (\<lambda>p. message_id (fst p)) ds)"
proof (induction ds arbitrary: s)
  case Nil
  then show ?case by (simp add: dq_ok_def)
next
  case (Cons p ds)
  obtain e h where p: "p = (e, h)" by (cases p)
  let ?s1 = "fst (snd (on_message s e h))"
  let ?m = "dq_maxlen (processed_ids s)"
  let ?xs = "dq_items (processed_ids s)"
  have fresh: "message_id e \<noteq> []" "message_id e \<notin> set ?xs"
    using Cons.prems(4) p by auto
  then have nd: "\<not> is_duplicate s e" by (simp add: is_duplicate_def)
  have ids1: "processed_ids ?s1 = deque_append (processed_ids s) (message_id e)"
    using nd fresh by (simp add: on_message_ids)
  have m1: "dq_maxlen (processed_ids ?s1) = ?m" by (simp add: ids1 deque_append_maxlen)
  have it1: "dq_items (processed_ids ?s1) = drop (Suc (length ?xs) - ?m) (?xs @ [message_id e])"
    using Cons.prems(1,2) by (simp add: ids1 deque_append_items)
  have ok1: "dq_ok (processed_ids ?s1)" using Cons.prems(1) by (simp add: ids1 deque_append_ok)
  have sub: "set (dq_items (processed_ids ?s1)) \<subseteq> insert (message_id e) (set ?xs)"
    unfolding ids1 by (rule deque_append_subset)
  have fresh1: "\<forall>e' \<in> set ds. message_id (fst e') \<noteq> [] \<and>
      message_id (fst e') \<notin> set (dq_items (processed_ids ?s1))"
  proof
    fix e' assume e': "e' \<in> set ds"
    have a: "message_id (fst e') \<noteq> []" "message_id (fst e') \<notin> set ?xs"
      using Cons.prems(4) e' by auto
    have "message_id (fst e') \<noteq> message_id e"
      using Cons.prems(3) e' p by (auto simp: image_iff)
    with a sub show "message_id (fst e') \<noteq> [] \<and>
      message_id (fst e') \<notin> set (dq_items (processed_ids ?s1))" by blast
  qed
  have ih: "dq_items (processed_ids (fst (run ?s1 (map (\<lambda>(e, h). DoInbound e h) ds)))) =
     drop (length (dq_items (processed_ids ?s1) @ map (\<lambda>p. message_id (fst p)) ds) - ?m)
          (dq_items (processed_ids ?s1) @ map (\<lambda>p. message_id (fst p)) ds)"
  proof -
    have pos1: "0 < dq_maxlen (processed_ids ?s1)" using Cons.prems(2) m1 by simp
    have dist1: "distinct (map (\<lambda>p. message_id (fst p)) ds)" using Cons.prems(3) by simp
    show ?thesis using Cons.IH [OF ok1 pos1 dist1 fresh1] unfolding m1 .
  qed
  have len: "length ?xs \<le> ?m" using Cons.prems(1) by (simp add: dq_ok_def)
  show ?case
    using ih window_step [OF len Cons.prems(2), of "message_id e" "map (\<lambda>p. message_id (fst p)) ds"]
    unfolding it1 by (simp add: p run_Cons)
qed


lemma on_message_duplicate: "is_duplicate s d \<Longrightarrow> on_message s d h = (Inr (), s, [])"
  by (simp add: on_message_def)


lemma message_id_ex_event: "message_id (ex_event i u c) = i"
  by (simp add: message_id_def ex_event_def str_or_empty_def)

lemma ex_burst_length: "length ex_burst = 1001"
  by (simp add: ex_burst_def)

lemma init_ids: "dq_ok (processed_ids init)" "dq_maxlen (processed_ids init) = 1000"
  "dq_items (processed_ids init) = []"
  by (simp_all add: init_def deque_new_def dq_ok_def)


lemma ex_burst_ids:
  "map (\<lambda>p. message_id (fst p)) ex_burst = map (\<lambda>n. replicate (Suc n) CHR ''a'') [0..<1001]"
  unfolding ex_burst_def map_map comp_def fst_conv message_id_ex_event ..

lemma ex_burst_distinct: "distinct (map (\<lambda>p. message_id (fst p)) ex_burst)"
  unfolding ex_burst_ids distinct_map
  by (simp add: inj_on_def del: upt_Suc upt_rec_numeral)


lemma ex_burst_fresh:
  "\<forall>e \<in> set ex_burst. message_id (fst e) \<noteq> [] \<and>
     message_id (fst e) \<notin> set (dq_items (processed_ids init))"
  unfolding ex_burst_def init_ids
  by (auto simp: message_id_ex_event simp del: upt_Suc upt_rec_numeral)

lemma ex_burst_hd: "fst (hd ex_burst) = ex_event ''a'' ''u1'' ''hi''"
proof -
  have "[0..<1001] \<noteq> []" by (simp del: upt_Suc upt_rec_numeral)
  then have "hd ex_burst = (ex_event (replicate (Suc (hd [0..<1001])) CHR ''a'') ''u1'' ''hi'', Returns)"
    unfolding ex_burst_def by (simp add: hd_map del: upt_Suc upt_rec_numeral)
  moreover have "hd [0..<1001] = (0::nat)" by (rule hd_upt) simp
  ultimately show ?thesis by simp
qed

text \<open>
  C4. An event whose non-empty id is not in the cache is not a duplicate when it is first
  presented; the id is then recorded, so that an event presented next with the same id is a
  duplicate and is dropped with no effect (the cache keeps at least one id). After
  capacity + 1 events with distinct new ids, the cache holds the ids of all but the
  first, which has been evicted: an event with the first id is not a duplicate any more.
\<close>

theorem dedup_window:
  "(message_id d \<noteq> [] \<longrightarrow> message_id d \<notin> set (dq_items (processed_ids s)) \<longrightarrow>
    0 < dq_maxlen (processed_ids s) \<longrightarrow> message_id d' = message_id d \<longrightarrow>
      \<not> is_duplicate s d
      \<and> is_duplicate (fst (snd (on_message s d h))) d'
      \<and> on_message (fst (snd (on_message s d h))) d' h' =
          (Inr (), fst (snd (on_message s d h)), []))
   \<and> (dq_ok (processed_ids s) \<longrightarrow> 0 < dq_maxlen (processed_ids s) \<longrightarrow>
      length ds = Suc (dq_maxlen (processed_ids s)) \<longrightarrow>
      distinct (map (\<lambda>p. message_id (fst p)) ds) \<longrightarrow>
      (\<forall>e \<in> set ds. message_id (fst e) \<noteq> [] \<and>
         message_id (fst e) \<notin> set (dq_items (processed_ids s))) \<longrightarrow>
        dq_items (processed_ids (fst (run s (map (\<lambda>(e, h). DoInbound e h) ds)))) =
          map (\<lambda>p. message_id (fst p)) (tl ds)
        \<and> \<not> is_duplicate (fst (run s (map (\<lambda>(e, h). DoInbound e h) ds))) (fst (hd ds)))"
proof (intro conjI impI)
  assume a: "message_id d \<noteq> []" "message_id d \<notin> set (dq_items (processed_ids s))"
    "0 < dq_maxlen (processed_ids s)" "message_id d' = message_id d"
  show nd: "\<not> is_duplicate s d" using a(2) by (simp add: is_duplicate_def)
  have "processed_ids (fst (snd (on_message s d h))) =
          deque_append (processed_ids s) (message_id d)"
    using nd a(1) by (simp add: on_message_ids)
  then show dup: "is_duplicate (fst (snd (on_message s d h))) d'"
    using a(1,3,4) by (simp add: is_duplicate_def deque_append_mem)
  then show "on_message (fst (snd (on_message s d h))) d' h' =
          (Inr (), fst (snd (on_message s d h)), [])"
    by (rule on_message_duplicate)
next
  assume b: "dq_ok (processed_ids s)" "0 < dq_maxlen (processed_ids s)"
    "length ds = Suc (dq_maxlen (processed_ids s))"
    "distinct (map (\<lambda>p. message_id (fst p)) ds)"
    "\<forall>e \<in> set ds. message_id (fst e) \<noteq> [] \<and>
         message_id (fst e) \<notin> set (dq_items (processed_ids s))"
  let ?xs = "dq_items (processed_ids s)"
  let ?ids = "map (\<lambda>p. message_id (fst p)) ds"
  have "dq_items (processed_ids (fst (run s (map (\<lambda>(e, h). DoInbound e h) ds)))) =
          drop (length (?xs @ ?ids) - dq_maxlen (processed_ids s)) (?xs @ ?ids)"
    using b(1,2,4,5) by (rule run_inbound_items)
  also have "\<dots> = drop (Suc (length ?xs)) (?xs @ ?ids)" using b(3) by simp
  also have "\<dots> = tl ?ids" by (simp add: drop_Suc)
  finally show items: "dq_items (processed_ids (fst (run s (map (\<lambda>(e, h). DoInbound e h) ds)))) =
          map (\<lambda>p. message_id (fst p)) (tl ds)" by (simp add: map_tl)
  obtain p ps where ds: "ds = p # ps" using b(3) by (cases ds) auto
  show "\<not> is_duplicate (fst (run s (map (\<lambda>(e, h). DoInbound e h) ds))) (fst (hd ds))"
    using b(4) unfolding is_duplicate_def items by (auto simp: ds image_iff)
qed

theorem dedup_window_witness:
  "\<not> is_duplicate init (ex_event ''a'' ''u1'' ''hi'')
   \<and> is_duplicate (fst (snd (on_message init (ex_event ''a'' ''u1'' ''hi'') Returns)))
        (ex_event ''a'' ''u1'' ''hi'')
   \<and> length ex_burst = Suc (dq_maxlen (processed_ids init))
   \<and> \<not> is_duplicate (fst (run init (map (\<lambda>(e, h). DoInbound e h) ex_burst)))
        (ex_event ''a'' ''u1'' ''hi'')"
  using dedup_window [of "ex_event ''a'' ''u1'' ''hi''" init "ex_event ''a'' ''u1'' ''hi''"
      Returns Returns ex_burst]
    ex_burst_distinct ex_burst_fresh
  by (simp add: init_ids ex_burst_length ex_burst_hd message_id_ex_event)

















subsection \<open>The reconnect loop\<close>

lemma stop_not_running: "\<not> running (fst (snd (stop s)))"
  by (auto simp: stop_def Let_def split: option.splits prod.splits)

lemma during_stop: "\<not> running (during StopCalled s)"
  by (simp add: during_def stop_not_running)

lemma run_bot_stopped: "\<not> running s \<Longrightarrow> run_bot s rs = (Returned, s, [])"
  by (cases rs) simp_all

lemma attempts_append: "attempts (es @ fs) = attempts es + attempts fs"
  by (simp add: attempts_def)

lemma attempt_once: "attempts (snd (snd (attempt s r))) \<le> 1"
  by (auto simp: attempt_def attempts_def Let_def split: option.splits call.splits exc.splits)

lemma run_bot_attempts: "attempts (snd (snd (run_bot s rs))) \<le> length rs"
proof (induction rs arbitrary: s)
  case Nil
  then show ?case by (simp add: attempts_def)
next
  case (Cons r rs)
  obtain st s1 es where a: "attempt s r = (st, s1, es)" by (cases "attempt s r")
  have e: "attempts es \<le> 1" using attempt_once [of s r] a by simp
  have i1: "attempts (snd (snd (run_bot s1 rs))) \<le> length rs" by (rule Cons.IH)
  have i2: "attempts (snd (snd (run_bot (during (in_sleep r) s1) rs))) \<le> length rs"
    by (rule Cons.IH)
  show ?case
    using e i1 i2
    by (auto simp: a attempts_append Let_def attempts_def split: option.splits call.splits prod.splits)
qed

lemma run_bot_failed_then_stopped:
  "run_bot s (\<lparr>connect = Raises (Exc m), in_connect = e1, sleep = sl, in_sleep = StopCalled\<rparr> # post) =
   run_bot s [\<lparr>connect = Raises (Exc m), in_connect = e1, sleep = sl, in_sleep = StopCalled\<rparr>]
   \<and> fst (run_bot s (\<lparr>connect = Raises (Exc m), in_connect = e1, sleep = sl, in_sleep = StopCalled\<rparr> # post)) \<noteq> Pending"
  by (auto simp: attempt_def Let_def run_bot_stopped during_stop split: option.splits call.splits)


lemma attempt_not_pending: "attempt s r = (Some st, s1, es) \<Longrightarrow> st \<noteq> Pending"
  by (auto simp: attempt_def Let_def split: option.splits call.splits exc.splits)

text \<open>
  C5. Whatever rounds the loop has gone through, when a connection attempt fails with an
  \<open>Exception\<close> and \<open>stop\<close> is called while the loop waits out the backoff, the
  loop ends: it returns (or the exception that interrupted the wait leaves it) and no
  later round is run, so the connection is not started again. The rounds after the failed
  one have no influence on the outcome, and the number of connection attempts is at most
  the number of rounds up to and including the failed one.
\<close>

theorem no_reconnect_after_stop:
  "run_bot s (pre @ \<lparr>connect = Raises (Exc m), in_connect = e1, sleep = sl,
                      in_sleep = StopCalled\<rparr> # post) =
   run_bot s (pre @ [\<lparr>connect = Raises (Exc m), in_connect = e1, sleep = sl,
                      in_sleep = StopCalled\<rparr>])
   \<and> fst (run_bot s (pre @ \<lparr>connect = Raises (Exc m), in_connect = e1, sleep = sl,
                      in_sleep = StopCalled\<rparr> # post)) \<noteq> Pending
   \<and> attempts (snd (snd (run_bot s (pre @ \<lparr>connect = Raises (Exc m), in_connect = e1,
                      sleep = sl, in_sleep = StopCalled\<rparr> # post)))) \<le> Suc (length pre)"
  (is "?A s pre \<and> ?B s pre \<and> ?C s pre")
proof -
  let ?r = "\<lparr>connect = Raises (Exc m), in_connect = e1, sleep = sl, in_sleep = StopCalled\<rparr>"
  have ab: "?A s pre \<and> ?B s pre"
  proof (induction pre arbitrary: s)
    case Nil
    show ?case unfolding append_Nil by (rule run_bot_failed_then_stopped)
  next
    case (Cons p pre)
    obtain st s1 es where a: "attempt s p = (st, s1, es)" by (cases "attempt s p")
    note ih1 = Cons.IH [of s1]
    note ih2 = Cons.IH [of "during (in_sleep p) s1"]
    show ?case
    proof (cases "running s")
      case False
      then show ?thesis by simp
    next
      case True
      show ?thesis
      proof (cases st)
        case (Some x)
        then show ?thesis using True a attempt_not_pending [of s p x s1 es] by simp
      next
        case None
        show ?thesis
        proof (cases "running s1")
          case r1: True
          show ?thesis
          proof (cases "sleep p")
            case Returns
            then show ?thesis using True a None r1 ih2 by (auto simp: Let_def split: prod.splits)
          next
            case (Raises e)
            then show ?thesis using True a None r1 by (simp add: Let_def)
          qed
        next
          case r1: False
          then show ?thesis using True a None ih1 by (auto split: prod.splits)
        qed
      qed
    qed
  qed
  have "attempts (snd (snd (run_bot s (pre @ [?r])))) \<le> length (pre @ [?r])"
    by (rule run_bot_attempts)
  then have c: "?C s pre" using ab by simp
  from ab c show ?thesis by blast
qed

theorem no_reconnect_after_stop_witness:
  "run_bot ex_channel
     [\<lparr>connect = Raises (Exc ''down''), in_connect = Idle, sleep = Returns,
        in_sleep = StopCalled\<rparr>,
      \<lparr>connect = Returns, in_connect = Idle, sleep = Returns, in_sleep = Idle\<rparr>] =
   run_bot ex_channel
     [\<lparr>connect = Raises (Exc ''down''), in_connect = Idle, sleep = Returns,
        in_sleep = StopCalled\<rparr>]
   \<and> fst (run_bot ex_channel
     [\<lparr>connect = Raises (Exc ''down''), in_connect = Idle, sleep = Returns,
        in_sleep = StopCalled\<rparr>,
      \<lparr>connect = Returns, in_connect = Idle, sleep = Returns, in_sleep = Idle\<rparr>]) = Returned
   \<and> snd (snd (run_bot ex_channel
     [\<lparr>connect = Raises (Exc ''down''), in_connect = Idle, sleep = Returns,
        in_sleep = StopCalled\<rparr>,
      \<lparr>connect = Returns, in_connect = Idle, sleep = Returns, in_sleep = Idle\<rparr>])) =
     [Connect, Log Warning ''QQ bot error: down'',
      Log Info ''Reconnecting QQ bot in 5 seconds...'', Sleep 5]"
  using no_reconnect_after_stop [of ex_channel "[]" "''down''" Idle Returns
      "[\<lparr>connect = Returns, in_connect = Idle, sleep = Returns, in_sleep = Idle\<rparr>]"]
  by (simp add: attempt_def during_def stop_def teardown_def ex_channel_def connected_def
      init_def ex_client_def Let_def)

subsection \<open>Sending without a client\<close>

text \<open>
  C10. A \<open>send\<close> on a channel whose client is not initialised returns normally and
  leaves every field of the channel as it was, the sequence table included; it only
  writes a warning to the log.
\<close>

theorem send_without_client:
  "client s = None \<Longrightarrow>
   send s m post = (Inr (), s, [Log Warning ''QQ client not initialized''])"
  by (simp add: send_def)

theorem send_without_client_witness:
  "client init = None \<and>
   send init ex_msg (Raises (Exc ''down'')) =
     (Inr (), init, [Log Warning ''QQ client not initialized''])"
  using send_without_client [of init ex_msg "Raises (Exc ''down'')"]
  by (simp add: init_def)

section \<open>Properties of the validator and the registry\<close>

subsection \<open>Validity\<close>

lemma concat_map_empty: "concat (map g xs) = [] \<longleftrightarrow> (\<forall>x \<in> set xs. g x = [])"
  by (induction xs) auto

lemma snd_enumerate: "snd ` set (enumerate n xs) = set xs"
  by (metis list.set_map map_snd_enumerate)

lemma validate_string:
  "validate f (SString minLength enum) path v = [] \<longleftrightarrow> satisfies (SString minLength enum) v"
  by (cases v) (auto simp: check_min_length_def check_enum_def split: option.splits)

lemma validate_integer:
  "validate f (SInteger minimum maximum) path v = [] \<longleftrightarrow> satisfies (SInteger minimum maximum) v"
  by (cases v) (auto simp: check_minimum_def check_maximum_def split: option.splits)

lemma validate_satisfies: "validate f S path v = [] \<longleftrightarrow> satisfies S v"
proof (induction f S path v rule: validate.induct)
  case (1 f minLength enum path v)
  show ?case by (rule validate_string)
next
  case (2 f minimum maximum path v)
  show ?case by (rule validate_integer)
next
  case (3 f items path v)
  show ?case
  proof (cases v)
    case (JArr xs)
    show ?thesis
    proof (cases items)
      case None
      then show ?thesis using JArr by simp
    next
      case (Some sch)
      have ih: "\<And>i x. (i, x) \<in> set (enumerate 0 xs) \<Longrightarrow>
                  validate f sch (element path i) x = [] \<longleftrightarrow> satisfies sch x"
        using "3.IH" [OF JArr Some] by blast
      have "(\<forall>p \<in> set (enumerate 0 xs). (case p of (i, x) \<Rightarrow> validate f sch (element path i) x) = [])
            \<longleftrightarrow> (\<forall>p \<in> set (enumerate 0 xs). satisfies sch (snd p))"
        using ih by (auto split: prod.splits)
      also have "\<dots> \<longleftrightarrow> (\<forall>x \<in> snd ` set (enumerate 0 xs). satisfies sch x)" by blast
      also have "\<dots> \<longleftrightarrow> (\<forall>x \<in> set xs. satisfies sch x)" by (simp only: snd_enumerate)
      finally show ?thesis
        using JArr Some by (simp add: concat_map_empty list_all_iff)
    qed
  qed simp_all
next
  case (4 f properties required path v)
  show ?case
  proof (cases v)
    case (JObj kvs)
    have ih: "\<And>k sch x. (k, sch) \<in> set properties \<Longrightarrow> map_of kvs k = Some x \<Longrightarrow>
                validate f sch (child path k) x = [] \<longleftrightarrow> satisfies sch x"
      using "4.IH" [OF JObj] by blast
    have req: "(\<forall>k \<in> set required. check_required path kvs k = [])
               \<longleftrightarrow> (\<forall>k \<in> set required. map_of kvs k \<noteq> None)"
      by (simp add: check_required_def)
    have props: "(\<forall>p \<in> set properties.
                   (case p of (k, sch) \<Rightarrow>
                      case map_of kvs k of None \<Rightarrow> []
                      | Some x \<Rightarrow> validate f sch (child path k) x) = [])
               \<longleftrightarrow> (\<forall>p \<in> set properties.
                   (case p of (k, sch) \<Rightarrow>
                      case map_of kvs k of None \<Rightarrow> True | Some x \<Rightarrow> satisfies sch x))"
      using ih by (auto split: prod.splits option.splits)
    show ?thesis
      using JObj req props by (simp add: concat_map_empty list_all_iff)
  qed simp_all
qed

text \<open>
  C1. For every schema, every path and every value the validator returns the empty
  sequence exactly when the value satisfies the schema structurally: each required
  name is present, each value has the declared type, each integer lies within its
  bounds, each string has the declared minimum length and is a member of its
  enumeration, and so on through the elements and the declared properties. This holds
  in particular for \<open>validate_params\<close>, the validator run on the argument mapping of a
  tool.
\<close>

theorem validate_empty_iff:
  "(validate f S path v = [] \<longleftrightarrow> satisfies S v)
   \<and> (validate_params tx t args = [] \<longleftrightarrow> satisfies (parameters t) (JObj args))"
  unfolding validate_params_def by (simp only: validate_satisfies)

theorem validate_empty_iff_witness:
  "validate_params sample_texts sample_tool
     [(''query'', JStr ''hi''), (''count'', JInt 2), (''extra'', JStr ''x'')] = []
   \<and> satisfies sample_schema
     (JObj [(''query'', JStr ''hi''), (''count'', JInt 2), (''extra'', JStr ''x'')])
   \<and> validate_params sample_texts sample_tool [(''query'', JStr ''hi'')] \<noteq> []
   \<and> \<not> satisfies sample_schema (JObj [(''query'', JStr ''hi'')])"
  using validate_empty_iff [of "show_enum sample_texts" sample_schema "[]"
      "JObj [(''query'', JStr ''hi''), (''count'', JInt 2), (''extra'', JStr ''x'')]"
      sample_texts sample_tool
      "[(''query'', JStr ''hi''), (''count'', JInt 2), (''extra'', JStr ''x'')]"]
    validate_empty_iff [of "show_enum sample_texts" sample_schema "[]"
      "JObj [(''query'', JStr ''hi'')]" sample_texts sample_tool "[(''query'', JStr ''hi'')]"]
  by (simp add: sample_tool_def sample_schema_def sample_properties_def)

subsection \<open>Type mismatches\<close>






subsection \<open>The registry returns texts\<close>

text \<open>
  C2. \<open>execute\<close> returns a text on every input and lets no exception out. For a name
  that is not registered the text is the one for an unknown tool, and nothing is
  invoked. For a registered tool whose schema the arguments violate, the text is
  \<open>Invalid parameters: \<close> followed by the joined violations, and the tool is not
  invoked. When the invocation of a registered tool raises an exception, of any kind,
  the result is the text for a failed invocation.
\<close>

theorem execute_returns_text:
  "(\<exists>out. fst (execute tx reg nm args) = Inr out)
   \<and> (reg nm = None \<longrightarrow> execute tx reg nm args = (Inr (unknown_tool tx nm), []))
   \<and> (reg nm = Some t \<and> validate_params tx t args \<noteq> [] \<longrightarrow>
        execute tx reg nm args =
          (Inr (''Invalid parameters: '' @ join_violations tx (validate_params tx t args)), []))
   \<and> (reg nm = Some t \<and> validate_params tx t args = [] \<and> invoke t args = Inl e \<longrightarrow>
        execute tx reg nm args = (Inr (invocation_failed tx nm e), [(nm, args)]))"
  by (auto simp: execute_def split: option.splits list.splits sum.splits)

theorem execute_returns_text_witness:
  "sample_registry ''nope'' = None
   \<and> execute sample_texts sample_registry ''nope'' [(''query'', JStr ''hi'')] =
       (Inr ''unknown tool nope'', [])
   \<and> sample_registry ''sample'' = Some sample_tool
   \<and> validate_params sample_texts sample_tool [(''query'', JStr ''hi'')] \<noteq> []
   \<and> execute sample_texts sample_registry ''sample'' [(''query'', JStr ''hi'')] =
       (Inr ''Invalid parameters: missing required count; '', [])
   \<and> sample_registry ''broken'' = Some failing_tool
   \<and> validate_params sample_texts failing_tool [] = []
   \<and> invoke failing_tool [] = Inl (Exc ''boom'')
   \<and> execute sample_texts sample_registry ''broken'' [] =
       (Inr ''error executing broken'', [(''broken'', [])])"
proof -
  have n: "sample_registry ''nope'' = None"
    by (simp add: sample_registry_def register_def sample_tool_def failing_tool_def)
  have s: "sample_registry ''sample'' = Some sample_tool"
    by (simp add: sample_registry_def register_def sample_tool_def failing_tool_def)
  have b: "sample_registry ''broken'' = Some failing_tool"
    by (simp add: sample_registry_def register_def failing_tool_def)
  have v: "validate_params sample_texts sample_tool [(''query'', JStr ''hi'')] =
      [''missing required count'']"
    by (simp add: validate_params_def sample_tool_def sample_schema_def sample_properties_def
        check_required_def child_def check_min_length_def check_enum_def)
  have w: "validate_params sample_texts failing_tool [] = []"
    by (simp add: validate_params_def failing_tool_def)
  have i: "invoke failing_tool [] = Inl (Exc ''boom'')"
    by (simp add: failing_tool_def)
  have "execute sample_texts sample_registry ''nope'' [(''query'', JStr ''hi'')] =
      (Inr (unknown_tool sample_texts ''nope''), [])"
    using n execute_returns_text [of sample_texts sample_registry "''nope''"
        "[(''query'', JStr ''hi'')]" sample_tool "Exc ''boom''"]
    by blast
  then have e1: "execute sample_texts sample_registry ''nope'' [(''query'', JStr ''hi'')] =
      (Inr ''unknown tool nope'', [])"
    by (simp add: sample_texts_def)
  have "execute sample_texts sample_registry ''sample'' [(''query'', JStr ''hi'')] =
      (Inr (''Invalid parameters: '' @ join_violations sample_texts
              (validate_params sample_texts sample_tool [(''query'', JStr ''hi'')])), [])"
    using s v execute_returns_text [of sample_texts sample_registry "''sample''"
        "[(''query'', JStr ''hi'')]" sample_tool "Exc ''boom''"]
    by simp
  then have e2: "execute sample_texts sample_registry ''sample'' [(''query'', JStr ''hi'')] =
      (Inr ''Invalid parameters: missing required count; '', [])"
    unfolding v by (simp add: sample_texts_def)
  have "execute sample_texts sample_registry ''broken'' [] =
      (Inr (invocation_failed sample_texts ''broken'' (Exc ''boom'')), [(''broken'', [])])"
    using b w i execute_returns_text [of sample_texts sample_registry "''broken''" "[]"
        failing_tool "Exc ''boom''"]
    by blast
  then have e3: "execute sample_texts sample_registry ''broken'' [] =
      (Inr ''error executing broken'', [(''broken'', [])])"
    by (simp add: sample_texts_def)
  show ?thesis
    using n s b w i e1 e2 e3 by (simp add: v)
qed

end
